theory Spec2Isabelle
  imports Complex_Main "HOL-Library.Word" "HOL-Library.Log_Nat"
begin

unbundle bit_operations_syntax

section \<open>The CAN frame codec of can\_protocol.py\<close>

text \<open>
  Modelling conventions.
  \<^item> A Python \<open>int\<close> is an \<^typ>\<open>int\<close>; \<open>&\<close> is \<open>AND\<close> on \<^typ>\<open>int\<close>
    (both are two's complement on unbounded integers).
  \<^item> A Python \<open>float\<close> is an IEEE 754 binary64 value: \<open>pyfloat\<close> below. A finite
    float is given by the real number it denotes; every arithmetic result is rounded
    to the nearest binary64 value, ties to even, and overflows to an infinity. The sign
    of zero is not modelled: nothing in the codec reads it.
  \<^item> A Python \<open>bytes\<close> object is a list of 8-bit words; reading an element gives
    its unsigned value (\<open>uint\<close>).
  \<^item> A Python \<open>str\<close> is a \<^typ>\<open>string\<close> holding the UTF-8 bytes of the source literal;
    the non-ASCII letters of the Turkish labels are written byte by byte.
  \<^item> Exceptions are values of \<open>py_error\<close>; a function that can raise returns
    \<open>py_error + 'a\<close>, with \<open>Inl\<close> the exception.
\<close>

type_synonym byte = "8 word"

datatype py_error = StructError | IndexError | OverflowError | ValueError | ZeroDivisionError

subsection \<open>CAN identifiers and fault masks\<close>

definition CAN_ID_RPM :: int where "CAN_ID_RPM = 0x100"
definition CAN_ID_TEMP :: int where "CAN_ID_TEMP = 0x101"
definition CAN_ID_TORQUE :: int where "CAN_ID_TORQUE = 0x102"
definition CAN_ID_VOLTAGE :: int where "CAN_ID_VOLTAGE = 0x103"
definition CAN_ID_CURRENT :: int where "CAN_ID_CURRENT = 0x104"
definition CAN_ID_ERROR :: int where "CAN_ID_ERROR = 0x1FF"

definition ERROR_OVERHEAT :: int where "ERROR_OVERHEAT = 1"
definition ERROR_OVERCURRENT :: int where "ERROR_OVERCURRENT = 2"
definition ERROR_UNDERVOLTAGE :: int where "ERROR_UNDERVOLTAGE = 4"
definition ERROR_COMM_LOSS :: int where "ERROR_COMM_LOSS = 8"
definition ERROR_ENCODER :: int where "ERROR_ENCODER = 16"

subsection \<open>String literals of the source\<close>

text \<open>The five fault names, in UTF-8: S-cedilla is C5 9E, U-umlaut is C3 9C,
  dotted capital I is C4 B0.\<close>

definition STR_OVERHEAT :: string where
  "STR_OVERHEAT = [CHR ''A'', CHR 0xC5, CHR 0x9E] @ ''IRI ISINMA''"

definition STR_OVERCURRENT :: string where
  "STR_OVERCURRENT = [CHR ''A'', CHR 0xC5, CHR 0x9E] @ ''IRI AKIM''"

definition STR_UNDERVOLTAGE :: string where
  "STR_UNDERVOLTAGE =
     [CHR ''D'', CHR 0xC3, CHR 0x9C, CHR 0xC5, CHR 0x9E, CHR 0xC3, CHR 0x9C] @ ''K GER''
     @ [CHR 0xC4, CHR 0xB0, CHR ''L'', CHR 0xC4, CHR 0xB0, CHR ''M'']"

definition STR_COMM_LOSS :: string where
  "STR_COMM_LOSS =
     [CHR 0xC4, CHR 0xB0] @ ''LET'' @ [CHR 0xC4, CHR 0xB0, CHR 0xC5, CHR 0x9E, CHR 0xC4, CHR 0xB0]
     @ ''M KAYBI''"

definition STR_ENCODER :: string where
  "STR_ENCODER = ''ENCODER HATASI''"

text \<open>Signal labels and units: dotless i is C4 B1, g-breve is C4 9F, the degree sign is
  C2 B0, the middle dot is C2 B7.\<close>

definition STR_TEMP_LABEL :: string where
  "STR_TEMP_LABEL =
     ''Motor S'' @ [CHR 0xC4, CHR 0xB1] @ ''cakl'' @ [CHR 0xC4, CHR 0xB1, CHR 0xC4, CHR 0x9F,
       CHR 0xC4, CHR 0xB1]"

definition STR_DEG_C :: string where
  "STR_DEG_C = [CHR 0xC2, CHR 0xB0, CHR ''C'']"

definition STR_NM :: string where
  "STR_NM = [CHR ''N'', CHR 0xC2, CHR 0xB7, CHR ''m'']"

definition STR_CURRENT_LABEL :: string where
  "STR_CURRENT_LABEL = ''Faz Ak'' @ [CHR 0xC4, CHR 0xB1] @ ''m'' @ [CHR 0xC4, CHR 0xB1]"

subsection \<open>Floats\<close>

datatype pyfloat = Finite real | PosInf | NegInf | NaN

text \<open>\<open>ilog2 x\<close> is the binary exponent of a positive real: the integer \<open>n\<close> with
  \<open>2^n \<le> x < 2^(n+1)\<close>, computed from the bit length of the integer part, or of the
  integer part of the reciprocal when \<open>x < 1\<close>.\<close>

definition ilog2 :: "real \<Rightarrow> int" where
  "ilog2 x = (if 1 \<le> x then bitlen \<lfloor>x\<rfloor> - 1 else - bitlen (\<lceil>1 / x\<rceil> - 1))"

text \<open>The exponent of the unit in the last place: 53 significant bits, and the fixed
  spacing \<open>2^-1074\<close> of the subnormal range at the bottom.\<close>

definition ulp_exponent :: "real \<Rightarrow> int" where
  "ulp_exponent x = max (- 1074) (ilog2 \<bar>x\<bar> - 52)"

definition round_half_even :: "real \<Rightarrow> int" where
  "round_half_even x =
     (let f = \<lfloor>x\<rfloor>; r = x - real_of_int f
      in if r < 1 / 2 then f
         else if 1 / 2 < r then f + 1
         else if even f then f else f + 1)"

text \<open>Rounding of an exact result to binary64: the nearest multiple of the unit in the
  last place, ties to even; a result that reaches \<open>2^1024\<close> in magnitude is an infinity.\<close>

definition round_double :: "real \<Rightarrow> pyfloat" where
  "round_double x =
     (if x = 0 then Finite 0
      else
        (let e = ulp_exponent x;
             m = round_half_even (x / 2 powi e);
             y = real_of_int m * 2 powi e
         in if 2 ^ 1024 \<le> y then PosInf
            else if y \<le> - (2 ^ 1024) then NegInf
            else Finite y))"

text \<open>\<open>x * y\<close> on floats. It never raises; an infinity times zero is NaN.\<close>

fun float_mul :: "pyfloat \<Rightarrow> pyfloat \<Rightarrow> pyfloat" where
  "float_mul NaN y = NaN"
| "float_mul x NaN = NaN"
| "float_mul (Finite x) (Finite y) = round_double (x * y)"
| "float_mul (Finite x) PosInf = (if 0 < x then PosInf else if x < 0 then NegInf else NaN)"
| "float_mul (Finite x) NegInf = (if 0 < x then NegInf else if x < 0 then PosInf else NaN)"
| "float_mul PosInf (Finite y) = (if 0 < y then PosInf else if y < 0 then NegInf else NaN)"
| "float_mul NegInf (Finite y) = (if 0 < y then NegInf else if y < 0 then PosInf else NaN)"
| "float_mul PosInf PosInf = PosInf"
| "float_mul PosInf NegInf = NegInf"
| "float_mul NegInf PosInf = NegInf"
| "float_mul NegInf NegInf = PosInf"

text \<open>\<open>x / y\<close> on floats. A zero divisor raises \<open>ZeroDivisionError\<close>, whatever the
  dividend; otherwise the quotient is rounded, and nothing raises.\<close>

fun float_truediv :: "pyfloat \<Rightarrow> pyfloat \<Rightarrow> py_error + pyfloat" where
  "float_truediv x (Finite y) =
     (if y = 0 then Inl ZeroDivisionError
      else (case x of
              Finite a \<Rightarrow> Inr (round_double (a / y))
            | PosInf \<Rightarrow> Inr (if 0 < y then PosInf else NegInf)
            | NegInf \<Rightarrow> Inr (if 0 < y then NegInf else PosInf)
            | NaN \<Rightarrow> Inr NaN))"
| "float_truediv x NaN = Inr NaN"
| "float_truediv (Finite a) y = Inr (Finite 0)"
| "float_truediv x y = Inr NaN"

text \<open>\<open>float(k)\<close> for an int, also the conversion of an int operand next to a float:
  the nearest float, and \<open>OverflowError\<close> when the int is beyond the finite range.\<close>

definition float_of_int :: "int \<Rightarrow> py_error + pyfloat" where
  "float_of_int k =
     (case round_double (real_of_int k) of
        Finite x \<Rightarrow> Inr (Finite x)
      | _ \<Rightarrow> Inl OverflowError)"

text \<open>\<open>k / y\<close> for an int \<open>k\<close> and a float \<open>y\<close>: the int is converted first.\<close>

definition int_truediv :: "int \<Rightarrow> pyfloat \<Rightarrow> py_error + pyfloat" where
  "int_truediv k y =
     (case float_of_int k of
        Inl e \<Rightarrow> Inl e
      | Inr x \<Rightarrow> float_truediv x y)"

subsection \<open>Data classes\<close>

record MotorTelemetry =
  rpm :: "pyfloat option"
  temp_c :: "pyfloat option"
  torque_nm :: "pyfloat option"
  voltage_v :: "pyfloat option"
  current_a :: "pyfloat option"
  error_flags :: int
  timestamp :: pyfloat

text \<open>\<open>MotorTelemetry.active_errors\<close>: each \<open>if\<close> appends to the list built so far.\<close>

definition active_errors :: "MotorTelemetry \<Rightarrow> string list" where
  "active_errors self =
     (let errors = [];
          errors = (if error_flags self AND ERROR_OVERHEAT \<noteq> 0
                    then errors @ [STR_OVERHEAT] else errors);
          errors = (if error_flags self AND ERROR_OVERCURRENT \<noteq> 0
                    then errors @ [STR_OVERCURRENT] else errors);
          errors = (if error_flags self AND ERROR_UNDERVOLTAGE \<noteq> 0
                    then errors @ [STR_UNDERVOLTAGE] else errors);
          errors = (if error_flags self AND ERROR_COMM_LOSS \<noteq> 0
                    then errors @ [STR_COMM_LOSS] else errors);
          errors = (if error_flags self AND ERROR_ENCODER \<noteq> 0
                    then errors @ [STR_ENCODER] else errors)
      in errors)"

text \<open>\<open>DecodedFrame\<close>; the field \<open>value\<close> of the source is \<open>val\<close> here.\<close>

record DecodedFrame =
  can_id :: int
  raw_bytes :: "byte list"
  signal :: string
  val :: pyfloat
  unit :: string
  is_error :: bool
  error_list :: "string list"


subsection \<open>\<open>int()\<close> and \<open>struct\<close>\<close>

text \<open>\<open>int(x)\<close> on a float truncates towards zero; it raises \<open>OverflowError\<close> on an
  infinity and \<open>ValueError\<close> on NaN.\<close>

definition py_int :: "pyfloat \<Rightarrow> py_error + int" where
  "py_int x =
     (case x of
        Finite a \<Rightarrow> Inr (if 0 \<le> a then \<lfloor>a\<rfloor> else \<lceil>a\<rceil>)
      | PosInf \<Rightarrow> Inl OverflowError
      | NegInf \<Rightarrow> Inl OverflowError
      | NaN \<Rightarrow> Inl ValueError)"


definition pack_h :: "int \<Rightarrow> py_error + byte list" where
  "pack_h v =
     (if - 32768 \<le> v \<and> v \<le> 32767
      then Inr [word_of_int ((v mod 65536) div 256), word_of_int (v mod 256)]
      else Inl StructError)"

text \<open>\<open>struct.unpack(">H", bs)[0]\<close> and \<open>struct.unpack(">h", bs)[0]\<close>: the buffer must
  hold exactly two bytes, else \<open>struct.error\<close>.\<close>

definition unpack_H :: "byte list \<Rightarrow> py_error + int" where
  "unpack_H bs =
     (case bs of
        [b0, b1] \<Rightarrow> Inr (uint b0 * 256 + uint b1)
      | _ \<Rightarrow> Inl StructError)"

definition unpack_h :: "byte list \<Rightarrow> py_error + int" where
  "unpack_h bs =
     (case bs of
        [b0, b1] \<Rightarrow>
          (let u = uint b0 * 256 + uint b1
           in Inr (if 32768 \<le> u then u - 65536 else u))
      | _ \<Rightarrow> Inl StructError)"


subsection \<open>Encoders\<close>


definition encode_temp :: "pyfloat \<Rightarrow> py_error + byte list" where
  "encode_temp t =
     (case py_int (float_mul t (Finite 10)) of
        Inl e \<Rightarrow> Inl e
      | Inr k \<Rightarrow> (let v = max (- 3276) (min 3276 k) in pack_h v))"

definition encode_torque :: "pyfloat \<Rightarrow> py_error + byte list" where
  "encode_torque t =
     (case py_int (float_mul t (Finite 100)) of
        Inl e \<Rightarrow> Inl e
      | Inr k \<Rightarrow> (let v = max (- 3276) (min 3276 k) in pack_h v))"



definition encode_error :: "int \<Rightarrow> byte list" where
  "encode_error flags = [word_of_int (flags AND 0xFF)]"

subsection \<open>Decoder\<close>

definition parse_error_flags :: "int \<Rightarrow> string list" where
  "parse_error_flags flags =
     (let errors = [];
          errors = (if flags AND ERROR_OVERHEAT \<noteq> 0
                    then errors @ [STR_OVERHEAT] else errors);
          errors = (if flags AND ERROR_OVERCURRENT \<noteq> 0
                    then errors @ [STR_OVERCURRENT] else errors);
          errors = (if flags AND ERROR_UNDERVOLTAGE \<noteq> 0
                    then errors @ [STR_UNDERVOLTAGE] else errors);
          errors = (if flags AND ERROR_COMM_LOSS \<noteq> 0
                    then errors @ [STR_COMM_LOSS] else errors);
          errors = (if flags AND ERROR_ENCODER \<noteq> 0
                    then errors @ [STR_ENCODER] else errors)
      in errors)"

text \<open>The constructor call \<open>DecodedFrame(can_id, data, signal, value, unit)\<close> with the
  defaults \<open>is_error = False\<close>, \<open>error_list = []\<close>.\<close>

definition mk_frame :: "int \<Rightarrow> byte list \<Rightarrow> string \<Rightarrow> pyfloat \<Rightarrow> string \<Rightarrow> DecodedFrame" where
  "mk_frame i d s v u =
     \<lparr>can_id = i, raw_bytes = d, signal = s, val = v, unit = u,
      is_error = False, error_list = []\<rparr>"

text \<open>The body of the \<open>try\<close> block. \<open>Inl\<close> is a raised exception, \<open>Inr None\<close> is falling
  through every branch of the \<open>if\<close>/\<open>elif\<close> chain.\<close>

definition decode_frame_try :: "int \<Rightarrow> byte list \<Rightarrow> py_error + DecodedFrame option" where
  "decode_frame_try i data =
     (if i = CAN_ID_RPM then
        (case unpack_H (take 2 data) of
           Inl e \<Rightarrow> Inl e
         | Inr v \<Rightarrow>
             (case float_of_int v of
                Inl e \<Rightarrow> Inl e
              | Inr x \<Rightarrow> Inr (Some (mk_frame i data ''Motor RPM'' x ''RPM''))))
      else if i = CAN_ID_TEMP then
        (case unpack_h (take 2 data) of
           Inl e \<Rightarrow> Inl e
         | Inr v \<Rightarrow>
             (case int_truediv v (Finite 10) of
                Inl e \<Rightarrow> Inl e
              | Inr x \<Rightarrow> Inr (Some (mk_frame i data STR_TEMP_LABEL x STR_DEG_C))))
      else if i = CAN_ID_TORQUE then
        (case unpack_h (take 2 data) of
           Inl e \<Rightarrow> Inl e
         | Inr v \<Rightarrow>
             (case int_truediv v (Finite 100) of
                Inl e \<Rightarrow> Inl e
              | Inr x \<Rightarrow> Inr (Some (mk_frame i data ''Tork'' x STR_NM))))
      else if i = CAN_ID_VOLTAGE then
        (case unpack_H (take 2 data) of
           Inl e \<Rightarrow> Inl e
         | Inr v \<Rightarrow>
             (case int_truediv v (Finite 10) of
                Inl e \<Rightarrow> Inl e
              | Inr x \<Rightarrow> Inr (Some (mk_frame i data ''DC Gerilim'' x ''V''))))
      else if i = CAN_ID_CURRENT then
        (case unpack_h (take 2 data) of
           Inl e \<Rightarrow> Inl e
         | Inr v \<Rightarrow>
             (case int_truediv v (Finite 100) of
                Inl e \<Rightarrow> Inl e
              | Inr x \<Rightarrow> Inr (Some (mk_frame i data STR_CURRENT_LABEL x ''A''))))
      else if i = CAN_ID_ERROR then
        (let flags = (case data of [] \<Rightarrow> 0 | b # _ \<Rightarrow> uint b)
         in case float_of_int flags of
              Inl e \<Rightarrow> Inl e
            | Inr x \<Rightarrow>
                (let dummy = (mk_frame i data ''Hata Durumu'' x '''')\<lparr>is_error := True\<rparr>;
                     dummy = dummy\<lparr>error_list := parse_error_flags flags\<rparr>
                 in Inr (Some dummy)))
      else Inr None)"

text \<open>\<open>decode_frame\<close>: the handler \<open>except (struct.error, IndexError): return None\<close>
  around the body. Any other exception would leave the function.\<close>

definition decode_frame :: "int \<Rightarrow> byte list \<Rightarrow> py_error + DecodedFrame option" where
  "decode_frame i data =
     (case decode_frame_try i data of
        Inl StructError \<Rightarrow> Inr None
      | Inl IndexError \<Rightarrow> Inr None
      | Inl e \<Rightarrow> Inl e
      | Inr r \<Rightarrow> Inr r)"

subsection \<open>The frame map\<close>

text \<open>The payload width of each identifier, as the frame map in the module's docstring
  gives it: \<open>byte[0:2]\<close> for the five numeric identifiers, \<open>byte[0]\<close> for the fault
  identifier. No function of the source reads this table; the properties below use it to
  say "shorter" and "longer than declared".\<close>

definition declared_width :: "int \<Rightarrow> nat option" where
  "declared_width i =
     (if i = CAN_ID_RPM then Some 2
      else if i = CAN_ID_TEMP then Some 2
      else if i = CAN_ID_TORQUE then Some 2
      else if i = CAN_ID_VOLTAGE then Some 2
      else if i = CAN_ID_CURRENT then Some 2
      else if i = CAN_ID_ERROR then Some 1
      else None)"

subsection \<open>The encoder's integer, in the words of the specification\<close>


text \<open>The same with truncation towards zero in place of rounding, applied to the
  product \<open>p\<close> that the encoder has computed: the integer part of the magnitude, with the
  sign of \<open>p\<close>.\<close>

definition truncate_towards_zero :: "real \<Rightarrow> int" where
  "truncate_towards_zero x = (if x < 0 then - 1 else 1) * \<lfloor>\<bar>x\<bar>\<rfloor>"


subsection \<open>Named fault sets\<close>

text \<open>Modelled from the spec: \<open>encode_bits\<close>, the map from a set of named fault conditions
  to a byte "setting exactly the bits corresponding to the given names and clearing all
  others (including reserved bits)". The source has the five masks and the name of each,
  but no function from names to a byte; the masks and names used here are the source's.\<close>

definition encode_bits :: "string set \<Rightarrow> byte" where
  "encode_bits names =
     word_of_int
       ((if STR_OVERHEAT \<in> names then ERROR_OVERHEAT else 0)
        OR (if STR_OVERCURRENT \<in> names then ERROR_OVERCURRENT else 0)
        OR (if STR_UNDERVOLTAGE \<in> names then ERROR_UNDERVOLTAGE else 0)
        OR (if STR_COMM_LOSS \<in> names then ERROR_COMM_LOSS else 0)
        OR (if STR_ENCODER \<in> names then ERROR_ENCODER else 0))"

section \<open>Auxiliary facts\<close>

lemmas can_id_defs =
  CAN_ID_RPM_def CAN_ID_TEMP_def CAN_ID_TORQUE_def CAN_ID_VOLTAGE_def
  CAN_ID_CURRENT_def CAN_ID_ERROR_def

lemmas error_mask_defs =
  ERROR_OVERHEAT_def ERROR_OVERCURRENT_def ERROR_UNDERVOLTAGE_def
  ERROR_COMM_LOSS_def ERROR_ENCODER_def

lemmas error_name_defs =
  STR_OVERHEAT_def STR_OVERCURRENT_def STR_UNDERVOLTAGE_def STR_COMM_LOSS_def STR_ENCODER_def

subsection \<open>Rounding to binary64\<close>

lemma round_half_even_err: "\<bar>real_of_int (round_half_even x) - x\<bar> \<le> 1 / 2"
  unfolding round_half_even_def Let_def by (auto; linarith)

lemma round_half_even_of_int: "round_half_even (real_of_int k) = k"
  by (simp add: round_half_even_def)

lemma ilog2_upper:
  assumes "x < 2 ^ Suc n"
  shows "ilog2 x \<le> int n"
proof (cases "1 \<le> x")
  case True
  have "\<lfloor>x\<rfloor> < 2 ^ Suc n"
    using assms by (simp add: floor_less_iff)
  then have "bitlen \<lfloor>x\<rfloor> \<le> int (Suc n)"
    unfolding bitlen_le_iff_power nat_int by simp
  with True show ?thesis by (simp add: ilog2_def)
next
  case False
  have "0 \<le> bitlen (\<lceil>1 / x\<rceil> - 1)" by (rule bitlen_nonneg)
  with False show ?thesis by (simp add: ilog2_def)
qed

lemma ulp_exponent_upper:
  assumes "\<bar>x\<bar> < 2 ^ Suc n"
  shows "ulp_exponent x \<le> int n - 52"
  using ilog2_upper [OF assms] by (simp add: ulp_exponent_def)

lemma powi_le_of_le: "a \<le> b \<Longrightarrow> (2::real) powi a \<le> 2 powi b"
  by (rule power_int_increasing) simp_all

text \<open>Rounding a real below 2^(n+1) in magnitude: finite, and off by at most half a unit
  in the last place.\<close>
lemma round_double_err:
  assumes x: "\<bar>x\<bar> < 2 ^ Suc n" and n: "n \<le> 60"
  shows "\<exists>y. round_double x = Finite y \<and> \<bar>y - x\<bar> \<le> 2 powi (int n - 53)"
proof (cases "x = 0")
  case True
  then show ?thesis by (simp add: round_double_def)
next
  case False
  define e where "e = ulp_exponent x"
  define m where "m = round_half_even (x / 2 powi e)"
  define y where "y = real_of_int m * 2 powi e"
  have pe: "0 < (2::real) powi e" by simp
  have e_le: "e \<le> int n - 52" unfolding e_def by (rule ulp_exponent_upper [OF x])
  have "\<bar>real_of_int m - x / 2 powi e\<bar> \<le> 1 / 2"
    unfolding m_def by (rule round_half_even_err)
  then have "\<bar>real_of_int m - x / 2 powi e\<bar> * 2 powi e \<le> 1 / 2 * 2 powi e"
    using pe by (intro mult_right_mono) simp_all
  moreover have "\<bar>real_of_int m - x / 2 powi e\<bar> * 2 powi e = \<bar>y - x\<bar>"
  proof -
    have "\<bar>real_of_int m - x / 2 powi e\<bar> * 2 powi e = \<bar>(real_of_int m - x / 2 powi e) * 2 powi e\<bar>"
      using pe by (simp add: abs_mult)
    also have "(real_of_int m - x / 2 powi e) * 2 powi e = y - x"
      using pe by (simp add: y_def field_simps)
    finally show ?thesis .
  qed
  ultimately have err: "\<bar>y - x\<bar> \<le> 2 powi e / 2" by simp
  have "2 powi e / 2 = (2::real) powi (e - 1)"
    by (simp add: power_int_diff)
  also have "\<dots> \<le> 2 powi (int n - 53)"
    using e_le by (intro powi_le_of_le) simp
  finally have half: "(2::real) powi e / 2 \<le> 2 powi (int n - 53)" .
  with err have bound: "\<bar>y - x\<bar> \<le> 2 powi (int n - 53)" by simp
  have "(2::real) powi (int n - 53) \<le> 2 powi 7"
    using n by (intro powi_le_of_le) simp
  then have small: "(2::real) powi (int n - 53) \<le> 128" by simp
  have "(2::real) ^ Suc n \<le> 2 ^ 61"
    using n by (intro power_increasing) simp_all
  with x have "\<bar>x\<bar> < 2 ^ 61" by simp
  with bound small have "\<bar>y\<bar> < 2 ^ 61 + 128" by linarith
  also have "\<dots> < (2::real) ^ 1024" by simp
  finally have fin: "\<bar>y\<bar> < 2 ^ 1024" .
  have "round_double x = Finite y"
    using False fin unfolding round_double_def Let_def
    by (simp add: e_def [symmetric] m_def [symmetric] y_def [symmetric] abs_less_iff not_le)
  with bound show ?thesis by blast
qed

lemma round_double_small:
  assumes "\<bar>x\<bar> < 8192"
  shows "\<exists>y. round_double x = Finite y \<and> \<bar>y - x\<bar> \<le> 1 / 2 ^ 41"
proof -
  have "\<bar>x\<bar> < 2 ^ Suc 12" using assms by simp
  from round_double_err [OF this] obtain y
    where "round_double x = Finite y" "\<bar>y - x\<bar> \<le> 2 powi (int 12 - 53)" by auto
  moreover have "(2::real) powi (int 12 - 53) = 1 / 2 ^ 41"
    by (simp add: power_int_minus field_simps)
  ultimately show ?thesis by auto
qed

lemmas float_eval =
  round_double_def ulp_exponent_def ilog2_def compute_bitlen round_half_even_def Let_def
  py_int_def float_of_int_def int_truediv_def

subsection \<open>Packing and unpacking two bytes\<close>










lemma unpack_H_short: "length bs < 2 \<Longrightarrow> unpack_H (take 2 bs) = Inl StructError"
  by (cases bs; cases "tl bs") (auto simp: unpack_H_def)

lemma unpack_h_short: "length bs < 2 \<Longrightarrow> unpack_h (take 2 bs) = Inl StructError"
  by (cases bs; cases "tl bs") (auto simp: unpack_h_def)

lemma take2_long: "2 \<le> length data \<Longrightarrow> \<exists>b0 b1. take 2 data = [b0, b1]"
  by (cases data; cases "tl data") auto

lemma unpack_H_two: "2 \<le> length data \<Longrightarrow> \<exists>k. unpack_H (take 2 data) = Inr k"
  using take2_long [of data] by (auto simp: unpack_H_def)

lemma unpack_h_two: "2 \<le> length data \<Longrightarrow> \<exists>k. unpack_h (take 2 data) = Inr k"
  using take2_long [of data] by (auto simp: unpack_h_def Let_def)

lemma unpack_H_range: "unpack_H bs = Inr k \<Longrightarrow> 0 \<le> k \<and> k \<le> 65535"
proof -
  assume a: "unpack_H bs = Inr k"
  then obtain b0 b1 where bs: "bs = [b0, b1]" and k: "k = uint b0 * 256 + uint b1"
    by (auto simp: unpack_H_def split: list.splits)
  have "0 \<le> uint b0" "uint b0 < 256" "0 \<le> uint b1" "uint b1 < 256"
    using uint_lt2p [of b0] uint_lt2p [of b1] by simp_all
  then show ?thesis unfolding k by linarith
qed

lemma unpack_h_range: "unpack_h bs = Inr k \<Longrightarrow> - 32768 \<le> k \<and> k \<le> 32767"
proof -
  assume a: "unpack_h bs = Inr k"
  then obtain b0 b1 where bs: "bs = [b0, b1]"
    by (auto simp: unpack_h_def split: list.splits)
  define u where "u = uint b0 * 256 + uint b1"
  have k: "k = (if 32768 \<le> u then u - 65536 else u)"
    using a unfolding bs u_def by (auto simp: unpack_h_def Let_def)
  have "0 \<le> uint b0" "uint b0 < 256" "0 \<le> uint b1" "uint b1 < 256"
    using uint_lt2p [of b0] uint_lt2p [of b1] by simp_all
  then have "0 \<le> u" "u < 65536" unfolding u_def by linarith+
  then show ?thesis unfolding k by auto
qed

subsection \<open>Conversions between int and float\<close>

lemma float_of_int_exact:
  assumes "\<bar>k\<bar> < 2 ^ 53"
  shows "float_of_int k = Inr (Finite (real_of_int k))"
proof (cases "k = 0")
  case True
  then show ?thesis by (simp add: float_of_int_def round_double_def)
next
  case False
  define x where "x = real_of_int k"
  define e where "e = ulp_exponent x"
  have "real_of_int \<bar>k\<bar> < real_of_int (2 ^ 53)"
    using assms by (simp only: of_int_less_iff)
  then have x53: "\<bar>x\<bar> < 2 ^ Suc 52"
    by (simp add: x_def)
  have "e \<le> 0"
    unfolding e_def using ulp_exponent_upper [OF x53] by simp
  define n where "n = nat (- e)"
  have e: "e = - int n" using \<open>e \<le> 0\<close> by (simp add: n_def)
  have pw: "(2::real) powi e = 1 / 2 ^ n"
    unfolding e by (simp add: power_int_minus field_simps)
  have "x / 2 powi e = real_of_int (k * 2 ^ n)"
    by (simp add: pw x_def)
  then have m: "round_half_even (x / 2 powi e) = k * 2 ^ n"
    by (simp only: round_half_even_of_int)
  have y: "real_of_int (k * 2 ^ n) * 2 powi e = x"
    by (simp add: pw x_def)
  have "(2::real) ^ Suc 52 \<le> 2 ^ 1024"
    by (intro power_increasing) simp_all
  with x53 have "\<bar>x\<bar> < 2 ^ 1024" by (rule less_le_trans)
  then have fin: "\<not> 2 ^ 1024 \<le> x" "\<not> x \<le> - (2 ^ 1024)" by (simp_all add: abs_less_iff)
  have "x \<noteq> 0" using False by (simp add: x_def)
  then have "round_double x = Finite x"
    unfolding round_double_def Let_def e_def [symmetric] m y using fin by simp
  then show ?thesis by (simp add: float_of_int_def x_def)
qed

lemma py_int_Finite: "py_int (Finite a) = Inr (truncate_towards_zero a)"
  by (auto simp: py_int_def truncate_towards_zero_def ceiling_def)


lemma truncate_towards_zero_of_int: "truncate_towards_zero (real_of_int k) = k"
  by (simp add: truncate_towards_zero_def)

lemma int_truediv_small:
  assumes "\<bar>k\<bar> < 2 ^ 53" and "c \<noteq> 0"
  shows "int_truediv k (Finite c) = Inr (round_double (real_of_int k / c))"
  using assms by (simp add: int_truediv_def float_of_int_exact)

text \<open>The quotient that a numeric branch of the decoder computes from a 16-bit value.\<close>
lemma decoded_quotient:
  assumes "\<bar>k\<bar> \<le> 65535" and "c = 10 \<or> c = 100"
  shows "\<exists>d. int_truediv k (Finite c) = Inr (Finite d) \<and> \<bar>d - real_of_int k / c\<bar> \<le> 1 / 2 ^ 41"
proof -
  have k53: "\<bar>k\<bar> < 2 ^ 53" using assms(1) by simp
  have "\<bar>real_of_int k\<bar> \<le> 65535" using assms(1) by (simp flip: of_int_abs)
  then have "\<bar>real_of_int k / c\<bar> < 8192"
    using assms(2) by (auto simp: abs_divide)
  from round_double_small [OF this] obtain d
    where "round_double (real_of_int k / c) = Finite d" "\<bar>d - real_of_int k / c\<bar> \<le> 1 / 2 ^ 41"
    by auto
  moreover have "int_truediv k (Finite c) = Inr (round_double (real_of_int k / c))"
    using assms(2) by (intro int_truediv_small [OF k53]) auto
  ultimately show ?thesis by auto
qed

lemma float_of_unpacked_H:
  assumes "unpack_H bs = Inr k"
  shows "float_of_int k = Inr (Finite (real_of_int k))"
proof -
  from unpack_H_range [OF assms] have "\<bar>k\<bar> \<le> 65535" by linarith
  then have "\<bar>k\<bar> < 2 ^ 53" by simp
  then show ?thesis by (rule float_of_int_exact)
qed

lemma quotient_of_unpacked_H:
  assumes "unpack_H bs = Inr k" and "c = 10 \<or> c = 100"
  shows "\<exists>d. int_truediv k (Finite c) = Inr (Finite d)"
proof -
  from unpack_H_range [OF assms(1)] have "\<bar>k\<bar> \<le> 65535" by linarith
  from decoded_quotient [OF this assms(2)] show ?thesis by blast
qed

lemma quotient_of_unpacked_h:
  assumes "unpack_h bs = Inr k" and "c = 10 \<or> c = 100"
  shows "\<exists>d. int_truediv k (Finite c) = Inr (Finite d)"
proof -
  from unpack_h_range [OF assms(1)] have "\<bar>k\<bar> \<le> 65535" by linarith
  from decoded_quotient [OF this assms(2)] show ?thesis by blast
qed

lemma float_of_byte: "float_of_int (uint (b :: byte)) = Inr (Finite (real_of_int (uint b)))"
proof -
  have "0 \<le> uint b" "uint b < 256" using uint_lt2p [of b] by simp_all
  then have "\<bar>uint b\<bar> < 2 ^ 53" by simp
  then show ?thesis by (rule float_of_int_exact)
qed

lemma float_of_zero: "float_of_int 0 = Inr (Finite 0)"
  using float_of_int_exact [of 0] by simp


subsection \<open>One encoder, one decoder branch\<close>



lemma mk_frame_fields:
  "can_id (mk_frame i d s v u) = i" "raw_bytes (mk_frame i d s v u) = d"
  "(mk_frame i d s v u)\<lparr>raw_bytes := d'\<rparr> = mk_frame i d' s v u"
  by (simp_all add: mk_frame_def)


lemma decode_rpm:
  "unpack_H (take 2 data) = Inr k \<Longrightarrow> float_of_int k = Inr x \<Longrightarrow>
   decode_frame CAN_ID_RPM data = Inr (Some (mk_frame CAN_ID_RPM data ''Motor RPM'' x ''RPM''))"
  by (simp add: decode_frame_def decode_frame_try_def)

lemma decode_temp:
  "unpack_h (take 2 data) = Inr k \<Longrightarrow> int_truediv k (Finite 10) = Inr x \<Longrightarrow>
   decode_frame CAN_ID_TEMP data = Inr (Some (mk_frame CAN_ID_TEMP data STR_TEMP_LABEL x STR_DEG_C))"
  by (simp add: decode_frame_def decode_frame_try_def can_id_defs)

lemma decode_torque:
  "unpack_h (take 2 data) = Inr k \<Longrightarrow> int_truediv k (Finite 100) = Inr x \<Longrightarrow>
   decode_frame CAN_ID_TORQUE data = Inr (Some (mk_frame CAN_ID_TORQUE data ''Tork'' x STR_NM))"
  by (simp add: decode_frame_def decode_frame_try_def can_id_defs)

lemma decode_voltage:
  "unpack_H (take 2 data) = Inr k \<Longrightarrow> int_truediv k (Finite 10) = Inr x \<Longrightarrow>
   decode_frame CAN_ID_VOLTAGE data = Inr (Some (mk_frame CAN_ID_VOLTAGE data ''DC Gerilim'' x ''V''))"
  by (simp add: decode_frame_def decode_frame_try_def can_id_defs)

lemma decode_current:
  "unpack_h (take 2 data) = Inr k \<Longrightarrow> int_truediv k (Finite 100) = Inr x \<Longrightarrow>
   decode_frame CAN_ID_CURRENT data = Inr (Some (mk_frame CAN_ID_CURRENT data STR_CURRENT_LABEL x ''A''))"
  by (simp add: decode_frame_def decode_frame_try_def can_id_defs)










subsection \<open>The fault frame and the fault masks\<close>

lemma word_of_int_low8: "(word_of_int (k AND 0xFF) :: byte) = word_of_int k"
proof -
  have "k AND 0xFF = take_bit 8 k"
    by (simp add: take_bit_eq_mask mask_eq_exp_minus_1)
  then show ?thesis by (simp add: word_of_int_eq_iff)
qed

lemma encode_error_uint: "encode_error (uint b) = [b]"
  unfolding encode_error_def word_of_int_low8 by simp

lemma decode_error_frame_empty:
  "decode_frame CAN_ID_ERROR [] =
     Inr (Some ((mk_frame CAN_ID_ERROR [] ''Hata Durumu'' (Finite 0) '''')
           \<lparr>is_error := True, error_list := parse_error_flags 0\<rparr>))"
  by (simp add: decode_frame_def decode_frame_try_def can_id_defs Let_def float_of_zero)

lemma decode_error_frame_byte:
  "decode_frame CAN_ID_ERROR (b # rest) =
     Inr (Some ((mk_frame CAN_ID_ERROR (b # rest) ''Hata Durumu''
                  (Finite (real_of_int (uint b))) '''')
           \<lparr>is_error := True, error_list := parse_error_flags (uint b)\<rparr>))"
  by (simp add: decode_frame_def decode_frame_try_def can_id_defs Let_def float_of_byte
      del: of_int_uint)

lemma mask_test_0: "(k :: int) AND 1 \<noteq> 0 \<longleftrightarrow> bit k 0"
  using and_exp_eq_0_iff_not_bit [of k 0] by simp

lemma mask_test_1: "(k :: int) AND 2 \<noteq> 0 \<longleftrightarrow> bit k 1"
  using and_exp_eq_0_iff_not_bit [of k 1] by simp

lemma mask_test_2: "(k :: int) AND 4 \<noteq> 0 \<longleftrightarrow> bit k 2"
  using and_exp_eq_0_iff_not_bit [of k 2] by simp

lemma mask_test_3: "(k :: int) AND 8 \<noteq> 0 \<longleftrightarrow> bit k 3"
  using and_exp_eq_0_iff_not_bit [of k 3] by simp

lemma mask_test_4: "(k :: int) AND 16 \<noteq> 0 \<longleftrightarrow> bit k 4"
  using and_exp_eq_0_iff_not_bit [of k 4] by simp

lemmas mask_tests = mask_test_0 mask_test_1 mask_test_2 mask_test_3 mask_test_4

lemma parse_error_flags_bits:
  "parse_error_flags flags =
     map snd (filter (\<lambda>(n, name). bit flags n)
       [(0, STR_OVERHEAT), (1, STR_OVERCURRENT), (2, STR_UNDERVOLTAGE),
        (3, STR_COMM_LOSS), (4, STR_ENCODER)])"
  by (simp add: parse_error_flags_def error_mask_defs mask_tests)

lemma error_names_distinct:
  "distinct [STR_OVERHEAT, STR_OVERCURRENT, STR_UNDERVOLTAGE, STR_COMM_LOSS, STR_ENCODER]"
  by (simp add: error_name_defs)

lemma and_single_bit: "(k :: int) AND 2 ^ n = (if bit k n then 2 ^ n else 0)"
  by (rule bit_eqI) (auto simp: bit_and_iff bit_exp_iff)

lemma and_31_split:
  "(k :: int) AND 0x1F = (k AND 1) OR (k AND 2) OR (k AND 4) OR (k AND 8) OR (k AND 16)"
proof -
  have "(0x1F :: int) = 1 OR 2 OR 4 OR 8 OR 16" by simp
  then show ?thesis by (simp only: bit.conj_disj_distrib)
qed

lemma mem_parse_error_flags:
  "STR_OVERHEAT \<in> set (parse_error_flags k) \<longleftrightarrow> k AND 1 \<noteq> 0"
  "STR_OVERCURRENT \<in> set (parse_error_flags k) \<longleftrightarrow> k AND 2 \<noteq> 0"
  "STR_UNDERVOLTAGE \<in> set (parse_error_flags k) \<longleftrightarrow> k AND 4 \<noteq> 0"
  "STR_COMM_LOSS \<in> set (parse_error_flags k) \<longleftrightarrow> k AND 8 \<noteq> 0"
  "STR_ENCODER \<in> set (parse_error_flags k) \<longleftrightarrow> k AND 16 \<noteq> 0"
  using error_names_distinct
  by (auto simp: parse_error_flags_def error_mask_defs Let_def)

lemma single_bit_cases:
  "(if (k :: int) AND 1 \<noteq> 0 then 1 else 0) = k AND 1"
  "(if (k :: int) AND 2 \<noteq> 0 then 2 else 0) = k AND 2"
  "(if (k :: int) AND 4 \<noteq> 0 then 4 else 0) = k AND 4"
  "(if (k :: int) AND 8 \<noteq> 0 then 8 else 0) = k AND 8"
  "(if (k :: int) AND 16 \<noteq> 0 then 16 else 0) = k AND 16"
  using and_single_bit [of k 0] and_single_bit [of k 1] and_single_bit [of k 2]
    and_single_bit [of k 3] and_single_bit [of k 4]
  by (auto split: if_splits)

lemma encode_bits_parse_int:
  "encode_bits (set (parse_error_flags k)) = word_of_int (k AND 0x1F)"
  unfolding encode_bits_def mem_parse_error_flags error_mask_defs single_bit_cases and_31_split
  by (rule refl)

subsection \<open>Payloads of at least the declared width\<close>

lemma oversized_rpm:
  assumes "2 \<le> length data"
  shows "\<exists>f. decode_frame CAN_ID_RPM data = Inr (Some f) \<and> can_id f = CAN_ID_RPM \<and> raw_bytes f = data
    \<and> decode_frame CAN_ID_RPM (take 2 data) = Inr (Some (f\<lparr>raw_bytes := take 2 data\<rparr>))"
proof -
  from assms obtain k where k: "unpack_H (take 2 data) = Inr k" using unpack_H_two by blast
  then have k': "unpack_H (take 2 (take 2 data)) = Inr k" by simp
  note x = float_of_unpacked_H [OF k]
  from decode_rpm [OF k x] decode_rpm [OF k' x] show ?thesis
    by (simp add: mk_frame_fields)
qed

lemma oversized_temp:
  assumes "2 \<le> length data"
  shows "\<exists>f. decode_frame CAN_ID_TEMP data = Inr (Some f) \<and> can_id f = CAN_ID_TEMP \<and> raw_bytes f = data
    \<and> decode_frame CAN_ID_TEMP (take 2 data) = Inr (Some (f\<lparr>raw_bytes := take 2 data\<rparr>))"
proof -
  from assms obtain k where k: "unpack_h (take 2 data) = Inr k" using unpack_h_two by blast
  then have k': "unpack_h (take 2 (take 2 data)) = Inr k" by simp
  from quotient_of_unpacked_h [OF k, of 10] obtain d
    where x: "int_truediv k (Finite 10) = Inr (Finite d)" by auto
  from decode_temp [OF k x] decode_temp [OF k' x] show ?thesis
    by (simp add: mk_frame_fields)
qed

lemma oversized_torque:
  assumes "2 \<le> length data"
  shows "\<exists>f. decode_frame CAN_ID_TORQUE data = Inr (Some f) \<and> can_id f = CAN_ID_TORQUE \<and> raw_bytes f = data
    \<and> decode_frame CAN_ID_TORQUE (take 2 data) = Inr (Some (f\<lparr>raw_bytes := take 2 data\<rparr>))"
proof -
  from assms obtain k where k: "unpack_h (take 2 data) = Inr k" using unpack_h_two by blast
  then have k': "unpack_h (take 2 (take 2 data)) = Inr k" by simp
  from quotient_of_unpacked_h [OF k, of 100] obtain d
    where x: "int_truediv k (Finite 100) = Inr (Finite d)" by auto
  from decode_torque [OF k x] decode_torque [OF k' x] show ?thesis
    by (simp add: mk_frame_fields)
qed

lemma oversized_voltage:
  assumes "2 \<le> length data"
  shows "\<exists>f. decode_frame CAN_ID_VOLTAGE data = Inr (Some f) \<and> can_id f = CAN_ID_VOLTAGE \<and> raw_bytes f = data
    \<and> decode_frame CAN_ID_VOLTAGE (take 2 data) = Inr (Some (f\<lparr>raw_bytes := take 2 data\<rparr>))"
proof -
  from assms obtain k where k: "unpack_H (take 2 data) = Inr k" using unpack_H_two by blast
  then have k': "unpack_H (take 2 (take 2 data)) = Inr k" by simp
  from quotient_of_unpacked_H [OF k, of 10] obtain d
    where x: "int_truediv k (Finite 10) = Inr (Finite d)" by auto
  from decode_voltage [OF k x] decode_voltage [OF k' x] show ?thesis
    by (simp add: mk_frame_fields)
qed

lemma oversized_current:
  assumes "2 \<le> length data"
  shows "\<exists>f. decode_frame CAN_ID_CURRENT data = Inr (Some f) \<and> can_id f = CAN_ID_CURRENT \<and> raw_bytes f = data
    \<and> decode_frame CAN_ID_CURRENT (take 2 data) = Inr (Some (f\<lparr>raw_bytes := take 2 data\<rparr>))"
proof -
  from assms obtain k where k: "unpack_h (take 2 data) = Inr k" using unpack_h_two by blast
  then have k': "unpack_h (take 2 (take 2 data)) = Inr k" by simp
  from quotient_of_unpacked_h [OF k, of 100] obtain d
    where x: "int_truediv k (Finite 100) = Inr (Finite d)" by auto
  from decode_current [OF k x] decode_current [OF k' x] show ?thesis
    by (simp add: mk_frame_fields)
qed

lemma oversized_error:
  assumes "1 \<le> length data"
  shows "\<exists>f. decode_frame CAN_ID_ERROR data = Inr (Some f) \<and> can_id f = CAN_ID_ERROR \<and> raw_bytes f = data
    \<and> decode_frame CAN_ID_ERROR (take 1 data) = Inr (Some (f\<lparr>raw_bytes := take 1 data\<rparr>))"
proof -
  from assms obtain b rest where "data = b # rest" by (cases data) auto
  then show ?thesis
    by (simp add: decode_error_frame_byte mk_frame_def del: of_int_uint)
qed

section \<open>Properties\<close>

subsection \<open>Round trip of the numeric signals\<close>

text \<open>
  C1, as stated, fails. The claim bounds the distance between a value and the decoding of
  its encoding by \<open>1 / scale\<close>. The float 1.15 lies in the torque range; \<open>1.15 * 100\<close>
  rounds to the float just below 115, \<open>int()\<close> gives 114, the bytes are 00 72, and they
  decode to \<open>114 / 100.0\<close>, the float 1.14. The two floats are more than \<open>1 / 100\<close>
  apart.
\<close>

theorem torque_roundtrip_counterexample:
  "round_double (115 / 100) = Finite (5179139571476070 / 2 ^ 52)
   \<and> - 3276 / 100 \<le> (5179139571476070 / 2 ^ 52 :: real)
   \<and> (5179139571476070 / 2 ^ 52 :: real) \<le> 3276 / 100
   \<and> encode_torque (Finite (5179139571476070 / 2 ^ 52)) = Inr [0x00, 0x72]
   \<and> decode_frame CAN_ID_TORQUE [0x00, 0x72] =
       Inr (Some \<lparr>can_id = 0x102, raw_bytes = [0x00, 0x72], signal = ''Tork'',
                  val = Finite (5134103575202365 / 2 ^ 52), unit = STR_NM,
                  is_error = False, error_list = []\<rparr>)
   \<and> (1 / 100 :: real) < \<bar>5134103575202365 / 2 ^ 52 - 5179139571476070 / 2 ^ 52\<bar>"
proof (intro conjI)
  show "round_double (115 / 100) = Finite (5179139571476070 / 2 ^ 52)"
    by (simp add: float_eval)
  show "encode_torque (Finite (5179139571476070 / 2 ^ 52)) = Inr [0x00, 0x72]"
    by (simp add: encode_torque_def float_eval pack_h_def)
  show "decode_frame CAN_ID_TORQUE [0x00, 0x72] =
       Inr (Some \<lparr>can_id = 0x102, raw_bytes = [0x00, 0x72], signal = ''Tork'',
                  val = Finite (5134103575202365 / 2 ^ 52), unit = STR_NM,
                  is_error = False, error_list = []\<rparr>)"
    by (simp add: decode_frame_def decode_frame_try_def can_id_defs unpack_h_def mk_frame_def
        float_eval)
qed simp_all



subsection \<open>What the encoders do before clamping\<close>



subsection \<open>Payloads shorter than the declared width\<close>

text \<open>
  C3, as stated, fails for the fault identifier. Its declared width is 1 and the empty
  payload is shorter, yet \<open>decode_frame\<close> returns a frame: the branch reads
  \<open>data[0] if data else 0\<close>, so an empty payload is the flag byte 0.
\<close>

theorem empty_fault_payload_decodes:
  "declared_width CAN_ID_ERROR = Some 1
   \<and> length ([] :: byte list) < 1
   \<and> decode_frame CAN_ID_ERROR [] =
       Inr (Some \<lparr>can_id = 0x1FF, raw_bytes = [], signal = ''Hata Durumu'', val = Finite 0,
                  unit = '''', is_error = True, error_list = []\<rparr>)"
  unfolding decode_error_frame_empty
  by (simp add: declared_width_def can_id_defs mk_frame_def parse_error_flags_def)

text \<open>
  C3, amended. For each of the five numeric identifiers and every payload shorter than the
  declared width 2, \<open>decode_frame\<close> returns no frame (\<open>None\<close>). For the fault identifier
  the empty payload is accepted: it decodes to a fault frame with value 0 and no active
  condition.
\<close>

theorem short_numeric_payload_gives_None:
  "(declared_width i = Some w \<and> i \<noteq> CAN_ID_ERROR \<and> length data < w
      \<longrightarrow> decode_frame i data = Inr None)
   \<and> (\<exists>f. decode_frame CAN_ID_ERROR [] = Inr (Some f) \<and> val f = Finite 0 \<and> error_list f = [])"
proof (intro conjI impI)
  assume a: "declared_width i = Some w \<and> i \<noteq> CAN_ID_ERROR \<and> length data < w"
  then have w: "w = 2" and i: "i \<in> {CAN_ID_RPM, CAN_ID_TEMP, CAN_ID_TORQUE, CAN_ID_VOLTAGE, CAN_ID_CURRENT}"
    by (auto simp: declared_width_def split: if_splits)
  with a have "length data < 2" by simp
  then have "unpack_H (take 2 data) = Inl StructError" "unpack_h (take 2 data) = Inl StructError"
    by (rule unpack_H_short, rule unpack_h_short)
  with i show "decode_frame i data = Inr None"
    by (auto simp: decode_frame_def decode_frame_try_def can_id_defs)
next
  show "\<exists>f. decode_frame CAN_ID_ERROR [] = Inr (Some f) \<and> val f = Finite 0 \<and> error_list f = []"
    unfolding decode_error_frame_empty by (simp add: mk_frame_def parse_error_flags_def)
qed

theorem short_numeric_payload_witness:
  "declared_width 0x100 = Some 2 \<and> (0x100 :: int) \<noteq> CAN_ID_ERROR
   \<and> length [0x01 :: byte] < 2 \<and> decode_frame 0x100 [0x01] = Inr None"
proof -
  have h: "declared_width 0x100 = Some 2 \<and> (0x100 :: int) \<noteq> CAN_ID_ERROR
    \<and> length [0x01 :: byte] < 2"
    by (simp add: declared_width_def can_id_defs)
  from short_numeric_payload_gives_None [of "0x100" 2 "[0x01]"] h show ?thesis by blast
qed

subsection \<open>Unknown identifiers\<close>




subsection \<open>The temperature example\<close>

text \<open>
  C5, as stated, fails. 823 is 0x0337, not 0x033B: \<open>encode_temp(82.3)\<close> produces the bytes
  03 37, and the bytes 03 3B are 827, which \<open>decode_frame\<close> reads as the float 82.7.
\<close>

theorem temp_example_counterexample:
  "round_double (823 / 10) = Finite (5791347645821747 / 2 ^ 46)
   \<and> encode_temp (Finite (5791347645821747 / 2 ^ 46)) = Inr [0x03, 0x37]
   \<and> encode_temp (Finite (5791347645821747 / 2 ^ 46)) \<noteq> Inr [0x03, 0x3B]
   \<and> decode_frame 0x101 [0x03, 0x3B] =
       Inr (Some \<lparr>can_id = 0x101, raw_bytes = [0x03, 0x3B], signal = STR_TEMP_LABEL,
                  val = Finite (5819495143492813 / 2 ^ 46), unit = STR_DEG_C,
                  is_error = False, error_list = []\<rparr>)
   \<and> round_double (827 / 10) = Finite (5819495143492813 / 2 ^ 46)
   \<and> (5819495143492813 / 2 ^ 46 :: real) \<noteq> 5791347645821747 / 2 ^ 46"
proof -
  have a: "round_double (823 / 10) = Finite (5791347645821747 / 2 ^ 46)"
    by (simp add: float_eval)
  have b: "encode_temp (Finite (5791347645821747 / 2 ^ 46)) = Inr [0x03, 0x37]"
    by (simp add: encode_temp_def float_eval pack_h_def)
  have c: "decode_frame 0x101 [0x03, 0x3B] =
       Inr (Some \<lparr>can_id = 0x101, raw_bytes = [0x03, 0x3B], signal = STR_TEMP_LABEL,
                  val = Finite (5819495143492813 / 2 ^ 46), unit = STR_DEG_C,
                  is_error = False, error_list = []\<rparr>)"
    by (simp add: decode_frame_def decode_frame_try_def can_id_defs unpack_h_def mk_frame_def
        float_eval)
  have d: "round_double (827 / 10) = Finite (5819495143492813 / 2 ^ 46)"
    by (simp add: float_eval)
  show ?thesis unfolding b c using a d by simp
qed

text \<open>
  C5, amended. \<open>encode_temp(82.3)\<close> produces the two bytes 0x03 0x37 (the big-endian form
  of 823), and \<open>decode_frame(0x101, bytes([0x03, 0x37]))\<close> yields a frame whose value is
  the float 82.3 and whose unit is the degree sign followed by C.
\<close>

theorem temp_example:
  "round_double (823 / 10) = Finite (5791347645821747 / 2 ^ 46)
   \<and> encode_temp (Finite (5791347645821747 / 2 ^ 46)) = Inr [0x03, 0x37]
   \<and> decode_frame 0x101 [0x03, 0x37] =
       Inr (Some \<lparr>can_id = 0x101, raw_bytes = [0x03, 0x37], signal = STR_TEMP_LABEL,
                  val = Finite (5791347645821747 / 2 ^ 46), unit = STR_DEG_C,
                  is_error = False, error_list = []\<rparr>)"
proof (intro conjI)
  show "round_double (823 / 10) = Finite (5791347645821747 / 2 ^ 46)"
    by (simp add: float_eval)
  show "encode_temp (Finite (5791347645821747 / 2 ^ 46)) = Inr [0x03, 0x37]"
    by (simp add: encode_temp_def float_eval pack_h_def)
  show "decode_frame 0x101 [0x03, 0x37] =
       Inr (Some \<lparr>can_id = 0x101, raw_bytes = [0x03, 0x37], signal = STR_TEMP_LABEL,
                  val = Finite (5791347645821747 / 2 ^ 46), unit = STR_DEG_C,
                  is_error = False, error_list = []\<rparr>)"
    by (simp add: decode_frame_def decode_frame_try_def can_id_defs unpack_h_def mk_frame_def
        float_eval)
qed

subsection \<open>Fault frames\<close>

text \<open>
  C6. For every byte \<open>b\<close>, decoding the fault frame with payload \<open>[b]\<close> succeeds and
  yields the value \<open>b\<close>; \<open>int()\<close> of that decoded value is \<open>b\<close> again, and
  \<open>encode_error\<close> of it gives \<open>[b]\<close> exactly, reserved bits 5 to 7 included.
\<close>

theorem fault_raw_byte_roundtrip:
  "\<exists>f. decode_frame CAN_ID_ERROR [b] = Inr (Some f)
       \<and> val f = Finite (real_of_int (uint b))
       \<and> py_int (val f) = Inr (uint b)
       \<and> encode_error (uint b) = [b]"
proof -
  define f where "f = (mk_frame CAN_ID_ERROR [b] ''Hata Durumu'' (Finite (real_of_int (uint b))) '''')
           \<lparr>is_error := True, error_list := parse_error_flags (uint b)\<rparr>"
  have d: "decode_frame CAN_ID_ERROR [b] = Inr (Some f)"
    unfolding f_def by (rule decode_error_frame_byte)
  have v: "val f = Finite (real_of_int (uint b))"
    by (simp add: f_def mk_frame_def)
  have "py_int (val f) = Inr (uint b)"
    unfolding v py_int_Finite truncate_towards_zero_of_int by (rule refl)
  with d v encode_error_uint show ?thesis by blast
qed

text \<open>
  C7. For every flag value, \<open>_parse_error_flags\<close> returns exactly one name per set bit
  among bits 0 to 4, in ascending bit order, with bit 0 the overheat name, bit 1 the
  overcurrent name, bit 2 the undervoltage name, bit 3 the communication-loss name and
  bit 4 the encoder-fault name; higher bits contribute nothing, and the five names are
  pairwise different. The decoded fault frame for a byte \<open>b\<close> carries this list, and
  0x05 gives the overheat name followed by the undervoltage name.
\<close>

theorem fault_names_per_set_bit:
  "parse_error_flags flags =
     map snd (filter (\<lambda>(n, name). bit flags n)
       [(0, STR_OVERHEAT), (1, STR_OVERCURRENT), (2, STR_UNDERVOLTAGE),
        (3, STR_COMM_LOSS), (4, STR_ENCODER)])
   \<and> distinct [STR_OVERHEAT, STR_OVERCURRENT, STR_UNDERVOLTAGE, STR_COMM_LOSS, STR_ENCODER]
   \<and> (\<exists>f. decode_frame CAN_ID_ERROR [b] = Inr (Some f)
         \<and> error_list f = parse_error_flags (uint b))
   \<and> parse_error_flags 0x05 = [STR_OVERHEAT, STR_UNDERVOLTAGE]"
proof (intro conjI)
  show "\<exists>f. decode_frame CAN_ID_ERROR [b] = Inr (Some f)
         \<and> error_list f = parse_error_flags (uint b)"
    unfolding decode_error_frame_byte by (simp add: mk_frame_def)
  show "parse_error_flags 0x05 = [STR_OVERHEAT, STR_UNDERVOLTAGE]"
    by (simp add: parse_error_flags_def error_mask_defs)
qed (rule parse_error_flags_bits error_names_distinct)+

text \<open>
  C8. \<open>encode_bits\<close> sets exactly the bits of the names it is given (bit \<open>n\<close> is set iff
  the name of bit \<open>n\<close> is in the set) and leaves bits 5 and above clear; so for every
  byte \<open>b\<close>, \<open>encode_bits\<close> of the names decoded from \<open>b\<close> is \<open>b\<close> with bits 5 to 7
  cleared, also when they were set in \<open>b\<close> (0xE5 gives 0x05).
\<close>

theorem encode_bits_clears_reserved:
  "encode_bits (set (parse_error_flags (uint b))) = b AND 0x1F
   \<and> drop_bit 5 (encode_bits names) = 0
   \<and> (bit (encode_bits names) 0 \<longleftrightarrow> STR_OVERHEAT \<in> names)
   \<and> (bit (encode_bits names) 1 \<longleftrightarrow> STR_OVERCURRENT \<in> names)
   \<and> (bit (encode_bits names) 2 \<longleftrightarrow> STR_UNDERVOLTAGE \<in> names)
   \<and> (bit (encode_bits names) 3 \<longleftrightarrow> STR_COMM_LOSS \<in> names)
   \<and> (bit (encode_bits names) 4 \<longleftrightarrow> STR_ENCODER \<in> names)
   \<and> encode_bits {STR_OVERHEAT, STR_UNDERVOLTAGE} = 0x05
   \<and> encode_bits (set (parse_error_flags 0xE5)) = 0x05"
proof (intro conjI)
  have "uint (b AND 0x1F) = uint b AND 0x1F"
    by (simp add: uint_and)
  then have "word_of_int (uint b AND 0x1F) = b AND 0x1F"
    by (metis word_of_int_uint)
  then show "encode_bits (set (parse_error_flags (uint b))) = b AND 0x1F"
    by (simp only: encode_bits_parse_int)
  show "drop_bit 5 (encode_bits names) = 0"
    by (simp add: encode_bits_def error_mask_defs)
  show "bit (encode_bits names) 0 \<longleftrightarrow> STR_OVERHEAT \<in> names"
    by (simp add: encode_bits_def error_mask_defs)
  show "bit (encode_bits names) 1 \<longleftrightarrow> STR_OVERCURRENT \<in> names"
    by (simp add: encode_bits_def error_mask_defs)
  show "bit (encode_bits names) 2 \<longleftrightarrow> STR_UNDERVOLTAGE \<in> names"
    by (simp add: encode_bits_def error_mask_defs)
  show "bit (encode_bits names) 3 \<longleftrightarrow> STR_COMM_LOSS \<in> names"
    by (simp add: encode_bits_def error_mask_defs)
  show "bit (encode_bits names) 4 \<longleftrightarrow> STR_ENCODER \<in> names"
    by (simp add: encode_bits_def error_mask_defs)
  show "encode_bits {STR_OVERHEAT, STR_UNDERVOLTAGE} = 0x05"
    by (simp add: encode_bits_def error_mask_defs error_name_defs)
  show "encode_bits (set (parse_error_flags 0xE5)) = 0x05"
    by (simp add: encode_bits_parse_int)
qed

subsection \<open>The two fault-name derivations agree\<close>

text \<open>
  C9. For every integer flag value \<open>f\<close>, a \<open>MotorTelemetry\<close> whose \<open>error_flags\<close> is \<open>f\<close>
  has \<open>active_errors()\<close> equal, element for element and in the same order, to
  \<open>_parse_error_flags(f)\<close>.
\<close>

theorem active_errors_eq_parse_error_flags:
  "active_errors (t\<lparr>error_flags := f\<rparr>) = parse_error_flags f"
  by (simp add: active_errors_def parse_error_flags_def)

subsection \<open>Payloads longer than the declared width\<close>

text \<open>
  C10. For every known identifier and every payload at least as long as the declared
  width, \<open>decode_frame\<close> succeeds; the frame's \<open>can_id\<close> is the input identifier and its
  \<open>raw_bytes\<close> is the whole payload, trailing bytes included; every other field is the
  one obtained from the first declared-width bytes alone (decoding the truncated payload
  gives the same frame up to \<open>raw_bytes\<close>).
\<close>

theorem decode_tolerates_oversized:
  assumes "declared_width i = Some w" and "w \<le> length data"
  shows "\<exists>f. decode_frame i data = Inr (Some f) \<and> can_id f = i \<and> raw_bytes f = data
    \<and> decode_frame i (take w data) = Inr (Some (f\<lparr>raw_bytes := take w data\<rparr>))"
proof -
  from assms(1) consider
      "i = CAN_ID_RPM" "w = 2" | "i = CAN_ID_TEMP" "w = 2" | "i = CAN_ID_TORQUE" "w = 2"
    | "i = CAN_ID_VOLTAGE" "w = 2" | "i = CAN_ID_CURRENT" "w = 2" | "i = CAN_ID_ERROR" "w = 1"
    by (auto simp: declared_width_def split: if_splits)
  then show ?thesis
  proof cases
    case 1 with assms(2) oversized_rpm [of data] show ?thesis by simp
  next
    case 2 with assms(2) oversized_temp [of data] show ?thesis by simp
  next
    case 3 with assms(2) oversized_torque [of data] show ?thesis by simp
  next
    case 4 with assms(2) oversized_voltage [of data] show ?thesis by simp
  next
    case 5 with assms(2) oversized_current [of data] show ?thesis by simp
  next
    case 6 with assms(2) oversized_error [of data] show ?thesis by simp
  qed
qed

theorem decode_tolerates_oversized_witness:
  "declared_width 0x101 = Some 2 \<and> 2 \<le> length [0x03, 0x37, 0xAA, 0xBB :: byte]
   \<and> (\<exists>f. decode_frame 0x101 [0x03, 0x37, 0xAA, 0xBB] = Inr (Some f) \<and> can_id f = 0x101
         \<and> raw_bytes f = [0x03, 0x37, 0xAA, 0xBB]
         \<and> decode_frame 0x101 (take 2 [0x03, 0x37, 0xAA, 0xBB])
             = Inr (Some (f\<lparr>raw_bytes := take 2 [0x03, 0x37, 0xAA, 0xBB]\<rparr>)))"
proof -
  have h1: "declared_width 0x101 = Some 2"
    by (simp add: declared_width_def can_id_defs)
  have h2: "2 \<le> length [0x03, 0x37, 0xAA, 0xBB :: byte]" by simp
  from decode_tolerates_oversized [OF h1 h2] h1 h2 show ?thesis by blast
qed

end
